theory Spec2Isabelle
  imports Main
begin

section \<open>Data model of \<^verbatim>\<open>src/index.tsx\<close>\<close>

text \<open>
  \<^verbatim>\<open>type Queued<Notification> = { id: string; data: Notification }\<close>.
  The field \<^verbatim>\<open>id\<close> is written \<open>id_q\<close>, since \<open>id\<close> is the identity function of HOL.
\<close>

record 'n Queued =
  id_q :: string
  data :: 'n

text \<open>
  \<^verbatim>\<open>interface Queue<Notification>\<close>: three methods and the field \<^verbatim>\<open>list\<close>.
  A method of the source returns \<^verbatim>\<open>void\<close> and acts on state outside the object; here it
  is a function on that state \<open>'s\<close> (the heap for the mock queue, the state cell of React
  for the live queue). \<open>'l\<close> is what the field \<^verbatim>\<open>list\<close> holds: a reference to an array
  for the mock queue, the array of one render for the live queue.
  \<^verbatim>\<open>remove\<close> and \<^verbatim>\<open>removeAll\<close> carry the suffix \<open>_q\<close>: both names are constants of HOL.
\<close>

record ('n, 's, 'l) Queue =
  add :: "string \<Rightarrow> 'n \<Rightarrow> 's \<Rightarrow> 's"
  remove_q :: "string \<Rightarrow> 's \<Rightarrow> 's"
  removeAll_q :: "'s \<Rightarrow> 's"
  list :: 'l

text \<open>The calls a consumer can make on a queue.\<close>

datatype 'n call = Add string 'n | Remove string | RemoveAll

fun dispatch :: "('n, 's, 'l) Queue \<Rightarrow> 'n call \<Rightarrow> 's \<Rightarrow> 's" where
  "dispatch q (Add i n) s = add q i n s"
| "dispatch q (Remove i) s = remove_q q i s"
| "dispatch q RemoveAll s = removeAll_q q s"

section \<open>The array methods the source calls\<close>

text \<open>
  \<^verbatim>\<open>Array.prototype.findIndex\<close>: the index of the first element satisfying the
  predicate, \<open>-1\<close> when there is none.
\<close>

fun findIndex_from :: "('a \<Rightarrow> bool) \<Rightarrow> 'a list \<Rightarrow> int \<Rightarrow> int" where
  "findIndex_from P [] k = -1"
| "findIndex_from P (x # xs) k = (if P x then k else findIndex_from P xs (k + 1))"

definition findIndex :: "('a \<Rightarrow> bool) \<Rightarrow> 'a list \<Rightarrow> int" where
  "findIndex P xs = findIndex_from P xs 0"

text \<open>\<^verbatim>\<open>arr.slice()\<close> without arguments: a fresh array with the same elements.\<close>

definition slice :: "'a list \<Rightarrow> 'a list" where
  "slice xs = xs"

text \<open>
  \<^verbatim>\<open>arr.splice(start, deleteCount, ...items)\<close>: the contents of \<^verbatim>\<open>arr\<close> afterwards
  (the source never uses the array of deleted elements that the call returns).
  A negative \<^verbatim>\<open>start\<close> counts from the end, \<^verbatim>\<open>start\<close> and \<^verbatim>\<open>deleteCount\<close> are clamped
  to the array. The name carries the suffix \<open>_arr\<close>: \<open>splice\<close> is a list function of HOL.
\<close>

definition splice_arr :: "int \<Rightarrow> int \<Rightarrow> 'a list \<Rightarrow> 'a list \<Rightarrow> 'a list" where
  "splice_arr start deleteCount items xs =
     (let len = int (length xs);
          actualStart = (if start < 0 then max (len + start) 0 else min start len);
          actualDeleteCount = min (max deleteCount 0) (len - actualStart)
      in take (nat actualStart) xs @ items @ drop (nat (actualStart + actualDeleteCount)) xs)"

text \<open>\<^verbatim>\<open>arr.push(...items)\<close>: the contents of \<^verbatim>\<open>arr\<close> afterwards.\<close>

definition push :: "'a list \<Rightarrow> 'a list \<Rightarrow> 'a list" where
  "push xs items = xs @ items"

section \<open>The mock queue: \<^verbatim>\<open>createMockNotificationQueue\<close>\<close>

text \<open>
  The mock queue keeps its entries in one array, which the closure variable \<^verbatim>\<open>list\<close> of
  the methods and the field \<^verbatim>\<open>list\<close> of the returned object both refer to, and which the
  methods change in place. The heap maps each reference to the contents of its array.
\<close>

type_synonym addr = nat

record 'n heap =
  cells :: "addr \<Rightarrow> 'n Queued list"
  next_addr :: addr

definition mock_add :: "addr \<Rightarrow> string \<Rightarrow> 'n \<Rightarrow> 'n heap \<Rightarrow> 'n heap" where
  "mock_add l i notification h =
     (let matchIndex = findIndex (\<lambda>n. id_q n = i) (cells h l);
          copy = slice (cells h l);
          copy = (if matchIndex > -1
                  then splice_arr matchIndex 1 [\<lparr>id_q = i, data = notification\<rparr>] copy
                  else push copy [\<lparr>id_q = i, data = notification\<rparr>]);
          h = h\<lparr>cells := (cells h)(l := splice_arr 0 (int (length (cells h l))) [] (cells h l))\<rparr>;
          h = h\<lparr>cells := (cells h)(l := push (cells h l) copy)\<rparr>
      in h)"

definition mock_remove :: "addr \<Rightarrow> string \<Rightarrow> 'n heap \<Rightarrow> 'n heap" where
  "mock_remove l i h =
     (let copy = filter (\<lambda>n. id_q n \<noteq> i) (cells h l);
          h = h\<lparr>cells := (cells h)(l := splice_arr 0 (int (length (cells h l))) [] (cells h l))\<rparr>;
          h = h\<lparr>cells := (cells h)(l := push (cells h l) copy)\<rparr>
      in h)"

definition mock_removeAll :: "addr \<Rightarrow> 'n heap \<Rightarrow> 'n heap" where
  "mock_removeAll l h =
     h\<lparr>cells := (cells h)(l := splice_arr 0 (int (length (cells h l))) [] (cells h l))\<rparr>"

text \<open>
  \<^verbatim>\<open>let list = []\<close> allocates the array at the next free reference; the object returned
  holds the three closures over it and the same reference in its field \<^verbatim>\<open>list\<close>.
\<close>

definition createMockNotificationQueue ::
  "'n heap \<Rightarrow> ('n, 'n heap, addr) Queue \<times> 'n heap" where
  "createMockNotificationQueue h =
     (let l = next_addr h;
          h = h\<lparr>cells := (cells h)(l := []), next_addr := Suc l\<rparr>
      in (\<lparr>add = mock_add l, remove_q = mock_remove l, removeAll_q = mock_removeAll l,
           list = l\<rparr>, h))"

text \<open>Reading \<^verbatim>\<open>queue.list\<close> of a mock queue: the contents of the array it refers to.\<close>

definition mock_list :: "('n, 'n heap, addr) Queue \<Rightarrow> 'n heap \<Rightarrow> 'n Queued list" where
  "mock_list q h = cells h (list q)"

text \<open>A mock queue is created and then receives the calls in order.\<close>

definition mock_run ::
  "'n call list \<Rightarrow> 'n heap \<Rightarrow> ('n, 'n heap, addr) Queue \<times> 'n heap" where
  "mock_run cs h =
     (let (q, h) = createMockNotificationQueue h in (q, fold (dispatch q) cs h))"

section \<open>The live queue: \<^verbatim>\<open>useNotificationQueue\<close>\<close>

text \<open>
  The live queue keeps its entries in a state cell of React. The model of \<^verbatim>\<open>useState\<close>
  follows React's documentation: the setter takes either the next state or a function
  from the state to the next state, and only records it; the next render applies the
  recorded updates, in the order of the calls, and yields the resulting state. The first
  render (no cell yet) yields the initial state.
\<close>

datatype 's update = Updater "'s \<Rightarrow> 's" | Value 's

record 's hook =
  state :: 's
  pending :: "'s update list"

fun apply_update :: "'s update \<Rightarrow> 's \<Rightarrow> 's" where
  "apply_update (Updater f) s = f s"
| "apply_update (Value v) s = v"

fun useState :: "'s \<Rightarrow> 's hook option \<Rightarrow> 's hook" where
  "useState initial None = \<lparr>state = initial, pending = []\<rparr>"
| "useState initial (Some hk) = \<lparr>state = fold apply_update (pending hk) (state hk), pending = []\<rparr>"

definition setState :: "'s update \<Rightarrow> 's hook \<Rightarrow> 's hook" where
  "setState u hk = hk\<lparr>pending := pending hk @ [u]\<rparr>"

text \<open>
  One render of the hook: \<^verbatim>\<open>const [queue, setQueue] = useState([])\<close>, then the object
  with the three closures over \<^verbatim>\<open>setQueue\<close> and \<^verbatim>\<open>list: queue\<close>.
\<close>

definition useNotificationQueue ::
  "'n Queued list hook option \<Rightarrow>
   ('n, 'n Queued list hook, 'n Queued list) Queue \<times> 'n Queued list hook" where
  "useNotificationQueue cell =
     (let hk = useState [] cell;
          queue = state hk
      in (\<lparr>add = (\<lambda>i notification. setState (Updater (\<lambda>queue.
                    let matchIndex = findIndex (\<lambda>n. id_q n = i) queue;
                        copy = slice queue
                    in if matchIndex > -1
                       then splice_arr matchIndex 1 [\<lparr>id_q = i, data = notification\<rparr>] copy
                       else push copy [\<lparr>id_q = i, data = notification\<rparr>]))),
           remove_q = (\<lambda>i. setState (Updater (\<lambda>queue. filter (\<lambda>n. id_q n \<noteq> i) queue))),
           removeAll_q = setState (Value []),
           list = queue\<rparr>, hk))"

text \<open>
  What a consumer does with a live queue: a call on the object of the latest render, or a
  new render, which replaces the object. The component is mounted by a first render.
\<close>

datatype 'n event = Call "'n call" | Render

fun calls_of :: "'n event list \<Rightarrow> 'n call list" where
  "calls_of [] = []"
| "calls_of (Call c # es) = c # calls_of es"
| "calls_of (Render # es) = calls_of es"

fun live_event ::
  "'n event \<Rightarrow> ('n, 'n Queued list hook, 'n Queued list) Queue \<times> 'n Queued list hook \<Rightarrow>
   ('n, 'n Queued list hook, 'n Queued list) Queue \<times> 'n Queued list hook" where
  "live_event (Call c) (q, hk) = (q, dispatch q c hk)"
| "live_event Render (q, hk) = useNotificationQueue (Some hk)"

definition live_run ::
  "'n event list \<Rightarrow> ('n, 'n Queued list hook, 'n Queued list) Queue \<times> 'n Queued list hook" where
  "live_run es = fold live_event es (useNotificationQueue None)"

text \<open>Reading \<^verbatim>\<open>queue.list\<close> of a live queue: the field of the object of the next render.\<close>

definition live_list :: "'n Queued list hook \<Rightarrow> 'n Queued list" where
  "live_list hk = list (fst (useNotificationQueue (Some hk)))"

section \<open>The consumer hook: \<^verbatim>\<open>useNotifications\<close>\<close>

text \<open>
  The context holds \<^verbatim>\<open>null\<close> by default and the queue of the nearest provider inside one.
  \<^verbatim>\<open>throw new Error(...)\<close> is the result \<open>Inl\<close>. \<open>TypeError\<close> is the error the
  language raises when a property of \<^verbatim>\<open>undefined\<close> or \<^verbatim>\<open>null\<close> is read.
\<close>

datatype error = Error string | TypeError

definition useNotifications ::
  "('n, 's, 'l) Queue option \<Rightarrow> error + ('n, 's, 'l) Queue" where
  "useNotifications context =
     (case context of
        None \<Rightarrow> Inl (Error ''Missing <NotificationQueueProvider>'')
      | Some queue \<Rightarrow> Inr queue)"

text \<open>\<^verbatim>\<open>NotificationQueueProvider\<close>: the context value its children see.\<close>

definition NotificationQueueProvider ::
  "('n, 's, 'l) Queue \<Rightarrow> ('n, 's, 'l) Queue option" where
  "NotificationQueueProvider queue = Some queue"

text \<open>
  \<^verbatim>\<open>MockNotificationQueueProvider\<close>: the queue of the props when there is one, otherwise a
  new mock queue.
\<close>

definition MockNotificationQueueProvider ::
  "('n, 'n heap, addr) Queue option \<Rightarrow> 'n heap \<Rightarrow> ('n, 'n heap, addr) Queue option \<times> 'n heap" where
  "MockNotificationQueueProvider queue h =
     (case queue of
        Some q \<Rightarrow> (Some q, h)
      | None \<Rightarrow> (let (q, h) = createMockNotificationQueue h in (Some q, h)))"

text \<open>
  A consumer's call through the hook: \<^verbatim>\<open>useNotifications()\<close> and then one method of the
  queue it returned.
\<close>

definition consumer_call ::
  "('n, 's, 'l) Queue option \<Rightarrow> 'n call \<Rightarrow> 's \<Rightarrow> error + 's" where
  "consumer_call context c s =
     (case useNotifications context of
        Inl e \<Rightarrow> Inl e
      | Inr q \<Rightarrow> Inr (dispatch q c s))"

section \<open>The methods on the values of the run time\<close>

text \<open>
  The types of the source are erased when it runs: a cell of an array then holds any
  value, and \<^verbatim>\<open>n.id\<close> raises a \<^verbatim>\<open>TypeError\<close> when \<^verbatim>\<open>n\<close> is \<^verbatim>\<open>undefined\<close> or \<^verbatim>\<open>null\<close>.
  This section gives the methods of both queues once more, on arrays of such values: the
  callbacks of \<^verbatim>\<open>findIndex\<close> and \<^verbatim>\<open>filter\<close> can raise, the array methods pass the
  error on, and every method returns \<open>Inl\<close> of the error or \<open>Inr\<close> of the state it
  leaves. The names carry the suffix \<open>_rt\<close>.
\<close>

datatype 'n jsvalue = Undefined | Null | Object "'n Queued"

text \<open>\<^verbatim>\<open>n.id\<close>, and the callbacks \<^verbatim>\<open>n => n.id === id\<close> and \<^verbatim>\<open>n => n.id !== id\<close>.\<close>

fun read_id :: "'n jsvalue \<Rightarrow> error + string" where
  "read_id Undefined = Inl TypeError"
| "read_id Null = Inl TypeError"
| "read_id (Object n) = Inr (id_q n)"

definition id_equals :: "string \<Rightarrow> 'n jsvalue \<Rightarrow> error + bool" where
  "id_equals i n = (case read_id n of Inl e \<Rightarrow> Inl e | Inr s \<Rightarrow> Inr (s = i))"

definition id_differs :: "string \<Rightarrow> 'n jsvalue \<Rightarrow> error + bool" where
  "id_differs i n = (case read_id n of Inl e \<Rightarrow> Inl e | Inr s \<Rightarrow> Inr (s \<noteq> i))"

text \<open>
  \<^verbatim>\<open>findIndex\<close> and \<^verbatim>\<open>filter\<close> call the callback on the elements in order and stop at the
  first error it raises.
\<close>

fun findIndex_rt_from :: "('a \<Rightarrow> error + bool) \<Rightarrow> 'a list \<Rightarrow> int \<Rightarrow> error + int" where
  "findIndex_rt_from P [] k = Inr (-1)"
| "findIndex_rt_from P (x # xs) k =
     (case P x of
        Inl e \<Rightarrow> Inl e
      | Inr b \<Rightarrow> if b then Inr k else findIndex_rt_from P xs (k + 1))"

definition findIndex_rt :: "('a \<Rightarrow> error + bool) \<Rightarrow> 'a list \<Rightarrow> error + int" where
  "findIndex_rt P xs = findIndex_rt_from P xs 0"

fun filter_rt :: "('a \<Rightarrow> error + bool) \<Rightarrow> 'a list \<Rightarrow> error + 'a list" where
  "filter_rt P [] = Inr []"
| "filter_rt P (x # xs) =
     (case P x of
        Inl e \<Rightarrow> Inl e
      | Inr b \<Rightarrow>
          (case filter_rt P xs of
             Inl e \<Rightarrow> Inl e
           | Inr ys \<Rightarrow> Inr (if b then x # ys else ys)))"

text \<open>The interface \<^verbatim>\<open>Queue\<close> with methods that can raise, and a consumer's calls on it.\<close>

record ('n, 's, 'l) Queue_rt =
  add_rt :: "string \<Rightarrow> 'n \<Rightarrow> 's \<Rightarrow> error + 's"
  remove_rt :: "string \<Rightarrow> 's \<Rightarrow> error + 's"
  removeAll_rt :: "'s \<Rightarrow> error + 's"
  list_rt :: 'l

fun dispatch_rt :: "('n, 's, 'l) Queue_rt \<Rightarrow> 'n call \<Rightarrow> 's \<Rightarrow> error + 's" where
  "dispatch_rt q (Add i n) s = add_rt q i n s"
| "dispatch_rt q (Remove i) s = remove_rt q i s"
| "dispatch_rt q RemoveAll s = removeAll_rt q s"

text \<open>A sequence of steps stops at the first error.\<close>

fun run_rt :: "('c \<Rightarrow> 's \<Rightarrow> error + 's) \<Rightarrow> 'c list \<Rightarrow> 's \<Rightarrow> error + 's" where
  "run_rt f [] s = Inr s"
| "run_rt f (c # cs) s = (case f c s of Inl e \<Rightarrow> Inl e | Inr s' \<Rightarrow> run_rt f cs s')"

subsection \<open>The mock queue\<close>

record 'n heap_rt =
  cells_rt :: "addr \<Rightarrow> 'n jsvalue list"
  next_addr_rt :: addr

definition mock_add_rt :: "addr \<Rightarrow> string \<Rightarrow> 'n \<Rightarrow> 'n heap_rt \<Rightarrow> error + 'n heap_rt" where
  "mock_add_rt l i notification h =
     (case findIndex_rt (id_equals i) (cells_rt h l) of
        Inl e \<Rightarrow> Inl e
      | Inr matchIndex \<Rightarrow>
          (let copy = slice (cells_rt h l);
               copy = (if matchIndex > -1
                       then splice_arr matchIndex 1 [Object \<lparr>id_q = i, data = notification\<rparr>] copy
                       else push copy [Object \<lparr>id_q = i, data = notification\<rparr>]);
               h = h\<lparr>cells_rt :=
                     (cells_rt h)(l := splice_arr 0 (int (length (cells_rt h l))) [] (cells_rt h l))\<rparr>;
               h = h\<lparr>cells_rt := (cells_rt h)(l := push (cells_rt h l) copy)\<rparr>
           in Inr h))"

definition mock_remove_rt :: "addr \<Rightarrow> string \<Rightarrow> 'n heap_rt \<Rightarrow> error + 'n heap_rt" where
  "mock_remove_rt l i h =
     (case filter_rt (id_differs i) (cells_rt h l) of
        Inl e \<Rightarrow> Inl e
      | Inr copy \<Rightarrow>
          (let h = h\<lparr>cells_rt :=
                     (cells_rt h)(l := splice_arr 0 (int (length (cells_rt h l))) [] (cells_rt h l))\<rparr>;
               h = h\<lparr>cells_rt := (cells_rt h)(l := push (cells_rt h l) copy)\<rparr>
           in Inr h))"

definition mock_removeAll_rt :: "addr \<Rightarrow> 'n heap_rt \<Rightarrow> error + 'n heap_rt" where
  "mock_removeAll_rt l h =
     Inr (h\<lparr>cells_rt :=
            (cells_rt h)(l := splice_arr 0 (int (length (cells_rt h l))) [] (cells_rt h l))\<rparr>)"

definition createMockNotificationQueue_rt ::
  "'n heap_rt \<Rightarrow> ('n, 'n heap_rt, addr) Queue_rt \<times> 'n heap_rt" where
  "createMockNotificationQueue_rt h =
     (let l = next_addr_rt h;
          h = h\<lparr>cells_rt := (cells_rt h)(l := []), next_addr_rt := Suc l\<rparr>
      in (\<lparr>add_rt = mock_add_rt l, remove_rt = mock_remove_rt l,
           removeAll_rt = mock_removeAll_rt l, list_rt = l\<rparr>, h))"

definition mock_run_rt ::
  "'n call list \<Rightarrow> 'n heap_rt \<Rightarrow> error + ('n, 'n heap_rt, addr) Queue_rt \<times> 'n heap_rt" where
  "mock_run_rt cs h =
     (let (q, h) = createMockNotificationQueue_rt h
      in case run_rt (dispatch_rt q) cs h of Inl e \<Rightarrow> Inl e | Inr h \<Rightarrow> Inr (q, h))"

subsection \<open>The live queue\<close>

text \<open>
  A method of the live queue only hands its update to \<^verbatim>\<open>setQueue\<close>; the function it hands
  over runs at the next render, which fails when the function raises.
\<close>

datatype 's update_rt = Updater_rt "'s \<Rightarrow> error + 's" | Value_rt 's

record 's hook_rt =
  state_rt :: 's
  pending_rt :: "'s update_rt list"

fun apply_update_rt :: "'s update_rt \<Rightarrow> 's \<Rightarrow> error + 's" where
  "apply_update_rt (Updater_rt f) s = f s"
| "apply_update_rt (Value_rt v) s = Inr v"

fun useState_rt :: "'s \<Rightarrow> 's hook_rt option \<Rightarrow> error + 's hook_rt" where
  "useState_rt initial None = Inr \<lparr>state_rt = initial, pending_rt = []\<rparr>"
| "useState_rt initial (Some hk) =
     (case run_rt apply_update_rt (pending_rt hk) (state_rt hk) of
        Inl e \<Rightarrow> Inl e
      | Inr s \<Rightarrow> Inr \<lparr>state_rt = s, pending_rt = []\<rparr>)"

definition setState_rt :: "'s update_rt \<Rightarrow> 's hook_rt \<Rightarrow> 's hook_rt" where
  "setState_rt u hk = hk\<lparr>pending_rt := pending_rt hk @ [u]\<rparr>"

definition useNotificationQueue_rt ::
  "'n jsvalue list hook_rt option \<Rightarrow>
   error + ('n, 'n jsvalue list hook_rt, 'n jsvalue list) Queue_rt \<times> 'n jsvalue list hook_rt" where
  "useNotificationQueue_rt cell =
     (case useState_rt [] cell of
        Inl e \<Rightarrow> Inl e
      | Inr hk \<Rightarrow>
          (let queue = state_rt hk
           in Inr (\<lparr>add_rt = (\<lambda>i notification hk. Inr (setState_rt (Updater_rt (\<lambda>queue.
                       case findIndex_rt (id_equals i) queue of
                         Inl e \<Rightarrow> Inl e
                       | Inr matchIndex \<Rightarrow>
                           (let copy = slice queue
                            in Inr (if matchIndex > -1
                                    then splice_arr matchIndex 1
                                           [Object \<lparr>id_q = i, data = notification\<rparr>] copy
                                    else push copy [Object \<lparr>id_q = i, data = notification\<rparr>]))))
                       hk)),
                    remove_rt = (\<lambda>i hk. Inr (setState_rt (Updater_rt (\<lambda>queue.
                       filter_rt (id_differs i) queue)) hk)),
                    removeAll_rt = (\<lambda>hk. Inr (setState_rt (Value_rt []) hk)),
                    list_rt = queue\<rparr>, hk)))"

fun live_event_rt ::
  "'n event \<Rightarrow>
   ('n, 'n jsvalue list hook_rt, 'n jsvalue list) Queue_rt \<times> 'n jsvalue list hook_rt \<Rightarrow>
   error + ('n, 'n jsvalue list hook_rt, 'n jsvalue list) Queue_rt \<times> 'n jsvalue list hook_rt"
  where
  "live_event_rt (Call c) (q, hk) =
     (case dispatch_rt q c hk of Inl e \<Rightarrow> Inl e | Inr hk \<Rightarrow> Inr (q, hk))"
| "live_event_rt Render (q, hk) = useNotificationQueue_rt (Some hk)"

definition live_run_rt ::
  "'n event list \<Rightarrow>
   error + ('n, 'n jsvalue list hook_rt, 'n jsvalue list) Queue_rt \<times> 'n jsvalue list hook_rt"
  where
  "live_run_rt es =
     (case useNotificationQueue_rt None of
        Inl e \<Rightarrow> Inl e
      | Inr s \<Rightarrow> run_rt live_event_rt es s)"

section \<open>The queue as a list\<close>

text \<open>
  The contents of a queue after each call, as a function on lists: what both queues are
  proved to do below. \<open>upsert\<close> replaces the first entry with the id where there is
  one and appends otherwise.
\<close>

definition upsert :: "string \<Rightarrow> 'n \<Rightarrow> 'n Queued list \<Rightarrow> 'n Queued list" where
  "upsert i n queue =
     (if i \<in> set (map id_q queue)
      then queue[length (takeWhile (\<lambda>e. id_q e \<noteq> i) queue) := \<lparr>id_q = i, data = n\<rparr>]
      else queue @ [\<lparr>id_q = i, data = n\<rparr>])"

fun apply_call :: "'n call \<Rightarrow> 'n Queued list \<Rightarrow> 'n Queued list" where
  "apply_call (Add i n) queue = upsert i n queue"
| "apply_call (Remove i) queue = filter (\<lambda>e. id_q e \<noteq> i) queue"
| "apply_call RemoveAll queue = []"

text \<open>The queue object of a mock queue, and of one render of the live queue.\<close>

abbreviation mock_queue :: "'n heap \<Rightarrow> ('n, 'n heap, addr) Queue" where
  "mock_queue h0 \<equiv> fst (createMockNotificationQueue h0)"

abbreviation live_queue ::
  "'n Queued list hook option \<Rightarrow> ('n, 'n Queued list hook, 'n Queued list) Queue" where
  "live_queue cell \<equiv> fst (useNotificationQueue cell)"

text \<open>
  A heap of the mock queue as a heap of run-time values: every cell holds an entry. The
  update a call of the live queue hands to \<^verbatim>\<open>setQueue\<close>, and the queue object of a mock
  queue on run-time values.
\<close>

definition heap_rt_of :: "'n heap \<Rightarrow> 'n heap_rt" where
  "heap_rt_of h = \<lparr>cells_rt = (\<lambda>a. map Object (cells h a)), next_addr_rt = next_addr h\<rparr>"

fun update_of_rt :: "'n call \<Rightarrow> 'n jsvalue list update_rt" where
  "update_of_rt (Add i notification) =
     Updater_rt (\<lambda>queue.
       case findIndex_rt (id_equals i) queue of
         Inl e \<Rightarrow> Inl e
       | Inr matchIndex \<Rightarrow>
           (let copy = slice queue
            in Inr (if matchIndex > -1
                    then splice_arr matchIndex 1 [Object \<lparr>id_q = i, data = notification\<rparr>] copy
                    else push copy [Object \<lparr>id_q = i, data = notification\<rparr>])))"
| "update_of_rt (Remove i) = Updater_rt (\<lambda>queue. filter_rt (id_differs i) queue)"
| "update_of_rt RemoveAll = Value_rt []"

abbreviation mock_queue_rt :: "'n heap_rt \<Rightarrow> ('n, 'n heap_rt, addr) Queue_rt" where
  "mock_queue_rt h0 \<equiv> fst (createMockNotificationQueue_rt h0)"

section \<open>The array methods as list functions\<close>

lemma findIndex_from_none:
  "\<not> (\<exists>x \<in> set xs. P x) \<Longrightarrow> findIndex_from P xs k = -1"
  by (induction xs arbitrary: k) auto

lemma findIndex_from_some:
  "\<exists>x \<in> set xs. P x \<Longrightarrow>
   findIndex_from P xs k = k + int (length (takeWhile (\<lambda>x. \<not> P x) xs))"
proof (induction xs arbitrary: k)
  case Nil
  then show ?case by simp
next
  case (Cons a xs)
  show ?case
  proof (cases "P a")
    case True
    then show ?thesis by simp
  next
    case False
    with Cons.prems have "\<exists>x \<in> set xs. P x" by auto
    from Cons.IH [OF this, of "k + 1"] False show ?thesis by simp
  qed
qed

lemma findIndex_eq:
  "findIndex P xs =
     (if \<exists>x \<in> set xs. P x then int (length (takeWhile (\<lambda>x. \<not> P x) xs)) else -1)"
  using findIndex_from_some [of xs P 0] findIndex_from_none [of xs P 0]
  by (simp add: findIndex_def)

lemma splice_arr_clear: "splice_arr 0 (int (length xs)) [] xs = []"
  by (simp add: splice_arr_def)

lemma splice_arr_replace:
  "k < length xs \<Longrightarrow> splice_arr (int k) 1 [e] xs = xs[k := e]"
  by (simp add: splice_arr_def Let_def upd_conv_take_nth_drop min_def max_def nat_add_distrib)

lemma takeWhile_lt: "\<exists>x \<in> set xs. P x \<Longrightarrow> length (takeWhile (\<lambda>x. \<not> P x) xs) < length xs"
  by (induction xs) auto

lemma updater_upsert:
  "(let matchIndex = findIndex (\<lambda>n. id_q n = i) queue;
        copy = slice queue
    in if matchIndex > -1
       then splice_arr matchIndex 1 [\<lparr>id_q = i, data = n\<rparr>] copy
       else push copy [\<lparr>id_q = i, data = n\<rparr>]) = upsert i n queue"
proof (cases "\<exists>x \<in> set queue. id_q x = i")
  case True
  then have "length (takeWhile (\<lambda>e. id_q e \<noteq> i) queue) < length queue"
    using takeWhile_lt [of queue "\<lambda>e. id_q e = i"] by simp
  with True show ?thesis
    by (auto simp add: findIndex_eq slice_def upsert_def splice_arr_replace)
next
  case False
  then show ?thesis
    by (auto simp add: findIndex_eq slice_def upsert_def push_def)
qed

lemma mock_add_list:
  "mock_list (fst (createMockNotificationQueue h0)) (add (fst (createMockNotificationQueue h0)) i n h)
   = upsert i n (mock_list (fst (createMockNotificationQueue h0)) h)"
  using updater_upsert [of i "cells h (next_addr h0)" n]
  by (simp add: createMockNotificationQueue_def mock_list_def mock_add_def Let_def splice_arr_clear push_def)

section \<open>Both queues compute the list functions\<close>

lemma mock_remove_list:
  "mock_list (mock_queue h0) (remove_q (mock_queue h0) i h)
   = filter (\<lambda>e. id_q e \<noteq> i) (mock_list (mock_queue h0) h)"
  by (simp add: createMockNotificationQueue_def mock_list_def mock_remove_def Let_def
      splice_arr_clear push_def)

lemma mock_removeAll_list:
  "mock_list (mock_queue h0) (removeAll_q (mock_queue h0) h) = []"
  by (simp add: createMockNotificationQueue_def mock_list_def mock_removeAll_def Let_def
      splice_arr_clear)

lemma mock_dispatch_list:
  "mock_list (mock_queue h0) (dispatch (mock_queue h0) c h)
   = apply_call c (mock_list (mock_queue h0) h)"
  by (cases c) (simp_all add: mock_add_list mock_remove_list mock_removeAll_list)

lemma mock_create_list:
  "mock_list (mock_queue h0) (snd (createMockNotificationQueue h0)) = []"
  by (simp add: createMockNotificationQueue_def mock_list_def Let_def)

lemma mock_fold_list:
  "mock_list (mock_queue h0) (fold (dispatch (mock_queue h0)) cs h)
   = fold apply_call cs (mock_list (mock_queue h0) h)"
  by (induction cs arbitrary: h) (simp_all add: mock_dispatch_list)

lemma mock_run_list:
  "mock_list (fst (mock_run cs h0)) (snd (mock_run cs h0)) = fold apply_call cs []"
  by (simp add: mock_run_def split_beta mock_fold_list mock_create_list)

lemma live_list_eq: "live_list hk = fold apply_update (pending hk) (state hk)"
  by (simp add: live_list_def useNotificationQueue_def Let_def)

lemma live_add_list:
  "live_list (add (live_queue cell) i n hk) = upsert i n (live_list hk)"
  by (simp add: live_list_eq useNotificationQueue_def Let_def setState_def
      updater_upsert [unfolded Let_def])

lemma live_remove_list:
  "live_list (remove_q (live_queue cell) i hk) = filter (\<lambda>e. id_q e \<noteq> i) (live_list hk)"
  by (simp add: live_list_eq useNotificationQueue_def Let_def setState_def)

lemma live_removeAll_list:
  "live_list (removeAll_q (live_queue cell) hk) = []"
  by (simp add: live_list_eq useNotificationQueue_def Let_def setState_def)

lemma live_dispatch_list:
  "live_list (dispatch (live_queue cell) c hk) = apply_call c (live_list hk)"
  by (cases c) (simp_all add: live_add_list live_remove_list live_removeAll_list)

lemma live_render_list:
  "live_list (snd (useNotificationQueue (Some hk))) = live_list hk"
  by (simp add: live_list_eq useNotificationQueue_def Let_def)

lemma live_mount_list:
  "live_list (snd (useNotificationQueue None)) = []"
  by (simp add: live_list_eq useNotificationQueue_def Let_def)

lemma live_fold_list:
  "live_list (snd (fold live_event es (live_queue cell, hk)))
   = fold apply_call (calls_of es) (live_list hk)"
proof (induction es arbitrary: cell hk)
  case Nil
  then show ?case by simp
next
  case (Cons e es)
  show ?case
  proof (cases e)
    case (Call c)
    then show ?thesis
      using Cons.IH [of cell "dispatch (live_queue cell) c hk"]
      by (simp add: live_dispatch_list)
  next
    case Render
    have "useNotificationQueue (Some hk)
          = (live_queue (Some hk), snd (useNotificationQueue (Some hk)))"
      by simp
    then show ?thesis
      using Cons.IH [of "Some hk" "snd (useNotificationQueue (Some hk))"] Render
      by (simp add: live_render_list)
  qed
qed

lemma live_run_list:
  "live_list (snd (live_run es)) = fold apply_call (calls_of es) []"
proof -
  have "live_run es = fold live_event es (live_queue None, snd (useNotificationQueue None))"
    by (simp add: live_run_def)
  then show ?thesis
    by (simp only: live_fold_list live_mount_list)
qed

lemma calls_of_append: "calls_of (es @ es') = calls_of es @ calls_of es'"
  by (induction es rule: calls_of.induct) simp_all

lemma live_run_render:
  "list (fst (live_run (es @ [Render]))) = live_list (snd (live_run es))"
proof -
  obtain q hk where "live_run es = (q, hk)"
    by (cases "live_run es")
  then show ?thesis
    by (simp add: live_run_def live_list_def)
qed

section \<open>Properties of the list functions\<close>

lemma takeWhile_index:
  "distinct (map f xs) \<Longrightarrow> k < length xs \<Longrightarrow> f (xs ! k) = i \<Longrightarrow>
   length (takeWhile (\<lambda>e. f e \<noteq> i) xs) = k"
proof (induction xs arbitrary: k)
  case Nil
  then show ?case by simp
next
  case (Cons x xs)
  show ?case
  proof (cases k)
    case 0
    with Cons.prems show ?thesis by simp
  next
    case (Suc j)
    with Cons.prems have j: "j < length xs" "f (xs ! j) = i" "distinct (map f xs)"
      by simp_all
    then have "xs ! j \<in> set xs" by simp
    with j Cons.prems(1) have "f x \<noteq> i" by force
    with Cons.IH [OF j(3) j(1) j(2)] Suc show ?thesis by simp
  qed
qed

lemma upsert_present:
  "distinct (map id_q l) \<Longrightarrow> k < length l \<Longrightarrow> id_q (l ! k) = i \<Longrightarrow>
   upsert i n l = l[k := \<lparr>id_q = i, data = n\<rparr>]"
proof -
  assume a: "distinct (map id_q l)" "k < length l" "id_q (l ! k) = i"
  then have "l ! k \<in> set l" by simp
  with a(3) have "i \<in> set (map id_q l)" by force
  with takeWhile_index [OF a] show ?thesis
    by (simp add: upsert_def)
qed

lemma upsert_absent:
  "i \<notin> set (map id_q l) \<Longrightarrow> upsert i n l = l @ [\<lparr>id_q = i, data = n\<rparr>]"
  by (simp add: upsert_def)

lemma upsert_ids:
  "map id_q (upsert i n l) = (if i \<in> set (map id_q l) then map id_q l else map id_q l @ [i])"
proof (cases "i \<in> set (map id_q l)")
  case True
  then have ex: "\<exists>x \<in> set l. id_q x = i" by auto
  let ?k = "length (takeWhile (\<lambda>e. id_q e \<noteq> i) l)"
  have lt: "?k < length l"
    using takeWhile_lt [OF ex] by simp
  have "id_q (l ! ?k) = i"
    using nth_length_takeWhile [OF lt] by simp
  then have "(map id_q l)[?k := i] = map id_q l"
    using lt by (metis list_update_id nth_map)
  with True show ?thesis
    by (simp add: upsert_def map_update)
next
  case False
  then show ?thesis by (simp add: upsert_def)
qed

lemma upsert_distinct:
  "distinct (map id_q l) \<Longrightarrow> distinct (map id_q (upsert i n l))"
  by (simp add: upsert_ids)

lemma apply_call_distinct:
  "distinct (map id_q l) \<Longrightarrow> distinct (map id_q (apply_call c l))"
  by (cases c) (simp_all add: upsert_distinct distinct_map_filter)

lemma fold_apply_call_distinct:
  "distinct (map id_q l) \<Longrightarrow> distinct (map id_q (fold apply_call cs l))"
  by (induction cs arbitrary: l) (simp_all add: apply_call_distinct)

lemma filter_present:
  "distinct (map id_q l) \<Longrightarrow> k < length l \<Longrightarrow> id_q (l ! k) = i \<Longrightarrow>
   filter (\<lambda>e. id_q e \<noteq> i) l = take k l @ drop (Suc k) l"
proof (induction l arbitrary: k)
  case Nil
  then show ?case by simp
next
  case (Cons x xs)
  show ?case
  proof (cases k)
    case 0
    with Cons.prems have "\<forall>e \<in> set xs. id_q e \<noteq> i" by (auto simp: image_iff)
    then have "filter (\<lambda>e. id_q e \<noteq> i) xs = xs" by (simp add: filter_id_conv)
    with 0 Cons.prems show ?thesis by simp
  next
    case (Suc j)
    with Cons.prems have j: "distinct (map id_q xs)" "j < length xs" "id_q (xs ! j) = i"
      by simp_all
    then have "xs ! j \<in> set xs" by simp
    with j Cons.prems(1) have "id_q x \<noteq> i" by force
    with Cons.IH [OF j] Suc show ?thesis by simp
  qed
qed

lemma filter_absent:
  "i \<notin> set (map id_q l) \<Longrightarrow> filter (\<lambda>e. id_q e \<noteq> i) l = l"
  by (induction l) auto

lemma takeWhile_update_first:
  "f x = i \<Longrightarrow>
   takeWhile (\<lambda>e. f e \<noteq> i) (l[length (takeWhile (\<lambda>e. f e \<noteq> i) l) := x])
   = takeWhile (\<lambda>e. f e \<noteq> i) l"
  by (induction l) simp_all

lemma upsert_twice: "upsert i d' (upsert i d l) = upsert i d' l"
proof (cases "i \<in> set (map id_q l)")
  case True
  have tw: "takeWhile (\<lambda>e. id_q e \<noteq> i)
              (l[length (takeWhile (\<lambda>e. id_q e \<noteq> i) l) := \<lparr>id_q = i, data = d\<rparr>])
            = takeWhile (\<lambda>e. id_q e \<noteq> i) l"
    by (rule takeWhile_update_first) simp
  have "i \<in> set (map id_q (upsert i d l))"
    using True by (simp add: upsert_ids)
  with True tw show ?thesis
    by (simp add: upsert_def)
next
  case False
  then have "takeWhile (\<lambda>e. id_q e \<noteq> i) (l @ [\<lparr>id_q = i, data = d\<rparr>]) = l"
    by (subst takeWhile_append2) auto
  with False show ?thesis
    by (simp add: upsert_def)
qed

lemma fold_adds:
  "distinct (map fst ps) \<Longrightarrow> set (map fst ps) \<inter> set (map id_q l) = {} \<Longrightarrow>
   fold apply_call (map (\<lambda>(i, d). Add i d) ps) l
   = l @ map (\<lambda>(i, d). \<lparr>id_q = i, data = d\<rparr>) ps"
proof (induction ps arbitrary: l)
  case Nil
  then show ?case by simp
next
  case (Cons p ps)
  obtain i d where p: "p = (i, d)" by (cases p)
  from Cons.prems p have absent: "i \<notin> set (map id_q l)" by auto
  from Cons.prems p have
    "distinct (map fst ps)"
    "set (map fst ps) \<inter> set (map id_q (l @ [\<lparr>id_q = i, data = d\<rparr>])) = {}"
    by auto
  from Cons.IH [OF this] p absent show ?case
    by (simp add: upsert_absent)
qed

lemma calls_of_map_Call: "calls_of (map Call cs) = cs"
  by (induction cs) simp_all

lemma live_run_snoc_Call: "fst (live_run (es @ [Call c])) = fst (live_run es)"
proof -
  obtain q hk where "live_run es = (q, hk)"
    by (cases "live_run es")
  then show ?thesis
    by (simp add: live_run_def)
qed

lemma live_held_distinct: "distinct (map id_q (list (fst (live_run es))))"
proof (induction es rule: rev_induct)
  case Nil
  show ?case by (simp add: live_run_def useNotificationQueue_def Let_def)
next
  case (snoc e es)
  show ?case
  proof (cases e)
    case (Call c)
    with snoc show ?thesis by (simp add: live_run_snoc_Call)
  next
    case Render
    then show ?thesis
      by (simp add: live_run_render live_run_list fold_apply_call_distinct)
  qed
qed

text \<open>
  Two \<^verbatim>\<open>add\<close> calls with an id the queue does not hold: one entry, at the end, with
  the data of the second call.
\<close>

lemma add_twice_new_id:
  assumes "mock_list (mock_queue h0) h = l" and "live_list hk = l"
    and "i \<notin> set (map id_q l)"
  shows "mock_list (mock_queue h0) (add (mock_queue h0) i d' (add (mock_queue h0) i d h))
           = l @ [\<lparr>id_q = i, data = d'\<rparr>]"
    and "live_list (add (live_queue cell') i d' (add (live_queue cell) i d hk))
           = l @ [\<lparr>id_q = i, data = d'\<rparr>]"
proof -
  have "upsert i d' (upsert i d l) = l @ [\<lparr>id_q = i, data = d'\<rparr>]"
    unfolding upsert_twice using assms(3) by (rule upsert_absent)
  with assms(1,2) show
    "mock_list (mock_queue h0) (add (mock_queue h0) i d' (add (mock_queue h0) i d h))
       = l @ [\<lparr>id_q = i, data = d'\<rparr>]"
    "live_list (add (live_queue cell') i d' (add (live_queue cell) i d hk))
       = l @ [\<lparr>id_q = i, data = d'\<rparr>]"
    by (simp_all add: mock_add_list live_add_list)
qed

section \<open>The methods on run-time values and the methods on entries\<close>

text \<open>
  On arrays that hold entries the methods on run-time values raise nothing and do what
  the methods of the sections above do.
\<close>

lemma findIndex_rt_from_objects:
  "findIndex_rt_from (id_equals i) (map Object l) k
   = Inr (findIndex_from (\<lambda>n. id_q n = i) l k)"
  by (induction l arbitrary: k) (simp_all add: id_equals_def)

lemma findIndex_rt_objects:
  "findIndex_rt (id_equals i) (map Object l) = Inr (findIndex (\<lambda>n. id_q n = i) l)"
  by (simp add: findIndex_rt_def findIndex_def findIndex_rt_from_objects)

lemma filter_rt_objects:
  "filter_rt (id_differs i) (map Object l) = Inr (map Object (filter (\<lambda>n. id_q n \<noteq> i) l))"
  by (induction l) (simp_all add: id_differs_def)

lemma splice_arr_map:
  "splice_arr s d (map f items) (map f xs) = map f (splice_arr s d items xs)"
  by (simp add: splice_arr_def Let_def take_map drop_map)

lemma add_body_objects:
  "(case findIndex_rt (id_equals i) (map Object l) of
      Inl e \<Rightarrow> Inl e
    | Inr matchIndex \<Rightarrow>
        (let copy = slice (map Object l)
         in Inr (if matchIndex > -1
                 then splice_arr matchIndex 1 [Object \<lparr>id_q = i, data = n\<rparr>] copy
                 else push copy [Object \<lparr>id_q = i, data = n\<rparr>])))
   = Inr (map Object (upsert i n l))"
proof -
  let ?m = "findIndex (\<lambda>n. id_q n = i) l"
  have u: "upsert i n l = (if ?m > -1 then splice_arr ?m 1 [\<lparr>id_q = i, data = n\<rparr>] l
                           else push l [\<lparr>id_q = i, data = n\<rparr>])"
    using updater_upsert [where i = i and queue = l and n = n]
    by (simp add: slice_def Let_def)
  have s: "splice_arr ?m 1 [Object \<lparr>id_q = i, data = n\<rparr>] (map Object l)
           = map Object (splice_arr ?m 1 [\<lparr>id_q = i, data = n\<rparr>] l)"
    using splice_arr_map [of ?m 1 Object "[\<lparr>id_q = i, data = n\<rparr>]" l] by simp
  show ?thesis
  proof (cases "?m > -1")
    case True
    with u s show ?thesis
      by (simp add: findIndex_rt_objects slice_def)
  next
    case False
    with u show ?thesis
      by (simp add: findIndex_rt_objects slice_def push_def)
  qed
qed

lemma splice_arr_clear_map: "splice_arr 0 (int (length xs)) [] (map f xs) = []"
  using splice_arr_clear [of "map f xs"] by simp

lemma heap_rt_of_cells: "cells_rt (heap_rt_of h) a = map Object (cells h a)"
  by (simp add: heap_rt_of_def)

lemma heap_rt_of_update:
  "(heap_rt_of h)\<lparr>cells_rt := (cells_rt (heap_rt_of h))(l := map Object xs)\<rparr>
   = heap_rt_of (h\<lparr>cells := (cells h)(l := xs)\<rparr>)"
  by (simp add: heap_rt_of_def fun_eq_iff)

lemma mock_add_rt_objects:
  "mock_add_rt l i n (heap_rt_of h) = Inr (heap_rt_of (mock_add l i n h))"
proof -
  have typed: "mock_add l i n h = h\<lparr>cells := (cells h)(l := upsert i n (cells h l))\<rparr>"
    using updater_upsert [where i = i and queue = "cells h l" and n = n]
    by (simp add: mock_add_def Let_def splice_arr_clear push_def)
  have "mock_add_rt l i n (heap_rt_of h)
        = Inr ((heap_rt_of h)\<lparr>cells_rt :=
                 (cells_rt (heap_rt_of h))(l := map Object (upsert i n (cells h l)))\<rparr>)"
    using add_body_objects [where i = i and n = n and l = "cells h l"]
    by (simp add: mock_add_rt_def heap_rt_of_cells Let_def splice_arr_clear_map push_def
        findIndex_rt_objects)
  then show ?thesis
    by (simp only: heap_rt_of_update typed)
qed

lemma mock_remove_rt_objects:
  "mock_remove_rt l i (heap_rt_of h) = Inr (heap_rt_of (mock_remove l i h))"
proof -
  have typed: "mock_remove l i h
               = h\<lparr>cells := (cells h)(l := filter (\<lambda>n. id_q n \<noteq> i) (cells h l))\<rparr>"
    by (simp add: mock_remove_def Let_def splice_arr_clear push_def)
  have "mock_remove_rt l i (heap_rt_of h)
        = Inr ((heap_rt_of h)\<lparr>cells_rt :=
                 (cells_rt (heap_rt_of h))
                   (l := map Object (filter (\<lambda>n. id_q n \<noteq> i) (cells h l)))\<rparr>)"
    by (simp add: mock_remove_rt_def heap_rt_of_cells Let_def splice_arr_clear_map push_def
        filter_rt_objects)
  then show ?thesis
    by (simp only: heap_rt_of_update typed)
qed

lemma mock_removeAll_rt_objects:
  "mock_removeAll_rt l (heap_rt_of h) = Inr (heap_rt_of (mock_removeAll l h))"
proof -
  have typed: "mock_removeAll l h = h\<lparr>cells := (cells h)(l := [])\<rparr>"
    by (simp add: mock_removeAll_def splice_arr_clear)
  have "mock_removeAll_rt l (heap_rt_of h)
        = Inr ((heap_rt_of h)\<lparr>cells_rt := (cells_rt (heap_rt_of h))(l := map Object [])\<rparr>)"
    by (simp add: mock_removeAll_rt_def splice_arr_clear)
  then show ?thesis
    by (simp only: heap_rt_of_update typed)
qed

lemma mock_dispatch_rt_objects:
  "dispatch_rt (mock_queue_rt (heap_rt_of h0)) c (heap_rt_of h)
   = Inr (heap_rt_of (dispatch (mock_queue h0) c h))"
  by (cases c)
    (simp_all add: createMockNotificationQueue_rt_def createMockNotificationQueue_def Let_def
      heap_rt_of_def [of h0] mock_add_rt_objects mock_remove_rt_objects
      mock_removeAll_rt_objects)

lemma mock_fold_rt_objects:
  "run_rt (dispatch_rt (mock_queue_rt (heap_rt_of h0))) cs (heap_rt_of h)
   = Inr (heap_rt_of (fold (dispatch (mock_queue h0)) cs h))"
  by (induction cs arbitrary: h) (simp_all add: mock_dispatch_rt_objects)

lemma mock_create_rt_objects:
  "snd (createMockNotificationQueue_rt (heap_rt_of h0))
   = heap_rt_of (snd (createMockNotificationQueue h0))"
  by (simp add: createMockNotificationQueue_rt_def createMockNotificationQueue_def Let_def
      heap_rt_of_def fun_eq_iff)

lemma mock_run_rt_objects:
  "mock_run_rt cs (heap_rt_of h0)
   = Inr (mock_queue_rt (heap_rt_of h0), heap_rt_of (snd (mock_run cs h0)))"
proof -
  have "mock_run_rt cs (heap_rt_of h0)
        = (case run_rt (dispatch_rt (mock_queue_rt (heap_rt_of h0))) cs
                  (snd (createMockNotificationQueue_rt (heap_rt_of h0))) of
             Inl e \<Rightarrow> Inl e
           | Inr h \<Rightarrow> Inr (mock_queue_rt (heap_rt_of h0), h))"
    by (simp add: mock_run_rt_def split_beta)
  then show ?thesis
    by (simp add: mock_create_rt_objects mock_fold_rt_objects mock_run_def split_beta)
qed

lemma run_rt_append:
  "run_rt f (xs @ ys) s = (case run_rt f xs s of Inl e \<Rightarrow> Inl e | Inr s' \<Rightarrow> run_rt f ys s')"
  by (induction xs arbitrary: s) (simp_all split: sum.splits)

lemma apply_update_of_rt:
  "apply_update_rt (update_of_rt c) (map Object l) = Inr (map Object (apply_call c l))"
  by (cases c) (simp_all add: add_body_objects filter_rt_objects)

lemma live_dispatch_rt:
  "useNotificationQueue_rt cell = Inr (q, hk0) \<Longrightarrow>
   dispatch_rt q c hk = Inr (setState_rt (update_of_rt c) hk)"
  by (cases c) (auto simp add: useNotificationQueue_rt_def Let_def split: sum.splits)

lemma live_step_rt:
  assumes "run_rt apply_update_rt (pending_rt hk_rt) (state_rt hk_rt)
           = Inr (map Object (live_list hk))"
  shows "run_rt apply_update_rt (pending_rt (setState_rt (update_of_rt c) hk_rt))
           (state_rt (setState_rt (update_of_rt c) hk_rt))
         = Inr (map Object (live_list (dispatch (live_queue cell) c hk)))"
  using assms
  by (simp add: setState_rt_def run_rt_append apply_update_of_rt live_dispatch_list)

lemma live_render_rt:
  assumes "run_rt apply_update_rt (pending_rt hk_rt) (state_rt hk_rt)
           = Inr (map Object (live_list hk))"
  shows "\<exists>q'. useNotificationQueue_rt (Some hk_rt)
               = Inr (q', \<lparr>state_rt = map Object (live_list hk), pending_rt = []\<rparr>) \<and>
              list_rt q' = map Object (live_list hk)"
  using assms by (simp add: useNotificationQueue_rt_def Let_def)

lemma live_fold_rt:
  assumes "useNotificationQueue_rt cell_rt = Inr (q_rt, hk0)"
    and "list_rt q_rt = map Object (list (live_queue cell))"
    and "run_rt apply_update_rt (pending_rt hk_rt) (state_rt hk_rt)
         = Inr (map Object (live_list hk))"
  shows "\<exists>q' hk'. run_rt live_event_rt es (q_rt, hk_rt) = Inr (q', hk') \<and>
           list_rt q' = map Object (list (fst (fold live_event es (live_queue cell, hk))))"
  using assms
proof (induction es arbitrary: cell_rt q_rt hk0 cell hk_rt hk)
  case Nil
  then show ?case by simp
next
  case (Cons e es)
  show ?case
  proof (cases e)
    case (Call c)
    have step: "live_event_rt (Call c) (q_rt, hk_rt)
                = Inr (q_rt, setState_rt (update_of_rt c) hk_rt)"
      using live_dispatch_rt [OF Cons.prems(1)] by simp
    from Cons.IH [OF Cons.prems(1) Cons.prems(2) live_step_rt [OF Cons.prems(3)],
        of c cell]
    show ?thesis
      using Call step by simp
  next
    case Render
    from live_render_rt [OF Cons.prems(3)] obtain q' where
      r: "useNotificationQueue_rt (Some hk_rt)
          = Inr (q', \<lparr>state_rt = map Object (live_list hk), pending_rt = []\<rparr>)"
      and l: "list_rt q' = map Object (live_list hk)"
      by blast
    have l': "list_rt q' = map Object (list (live_queue (Some hk)))"
      using l by (simp add: live_list_def)
    have i: "run_rt apply_update_rt
               (pending_rt \<lparr>state_rt = map Object (live_list hk), pending_rt = []\<rparr>)
               (state_rt \<lparr>state_rt = map Object (live_list hk), pending_rt = []\<rparr>)
             = Inr (map Object (live_list (snd (useNotificationQueue (Some hk)))))"
      by (simp add: live_render_list)
    have typed: "live_event Render (live_queue cell, hk)
                 = (live_queue (Some hk), snd (useNotificationQueue (Some hk)))"
      by simp
    from Cons.IH [OF r l' i] Render r typed
    show ?thesis
      by simp
  qed
qed

lemma live_run_rt_objects:
  "\<exists>q hk. live_run_rt (es :: 'n event list) = Inr (q, hk) \<and>
          list_rt q = map Object (list (fst (live_run es)))"
proof -
  obtain q0 :: "('n, 'n jsvalue list hook_rt, 'n jsvalue list) Queue_rt" where
    m: "useNotificationQueue_rt None = Inr (q0, \<lparr>state_rt = [], pending_rt = []\<rparr>)"
    and l: "list_rt q0 = []"
    by (simp add: useNotificationQueue_rt_def Let_def)
  have l': "list_rt q0 = map Object (list (live_queue None))"
    using l by (simp add: useNotificationQueue_def Let_def)
  have i: "run_rt apply_update_rt
             (pending_rt \<lparr>state_rt = [], pending_rt = []\<rparr>)
             (state_rt \<lparr>state_rt = [], pending_rt = []\<rparr>)
           = Inr (map Object (live_list (snd (useNotificationQueue None))))"
    by (simp add: live_mount_list)
  have typed: "live_run es = fold live_event es (live_queue None, snd (useNotificationQueue None))"
    by (simp add: live_run_def)
  from live_fold_rt [OF m l' i, of es] m typed show ?thesis
    by (simp add: live_run_rt_def)
qed

text \<open>
  The error is a branch that is taken: on an array with an \<^verbatim>\<open>undefined\<close> cell, which no
  method of the queue writes, \<^verbatim>\<open>add\<close> and \<^verbatim>\<open>remove\<close> raise the \<^verbatim>\<open>TypeError\<close>.
\<close>

lemma mock_methods_rt_raise_on_undefined:
  "mock_add_rt 0 ''a'' n \<lparr>cells_rt = \<lambda>_. [Undefined], next_addr_rt = 1\<rparr> = Inl TypeError"
  "mock_remove_rt 0 ''a'' \<lparr>cells_rt = \<lambda>_. [Undefined], next_addr_rt = 1\<rparr> = Inl TypeError"
  by (simp_all add: mock_add_rt_def mock_remove_rt_def findIndex_rt_def id_equals_def
      id_differs_def)

section \<open>Properties of the queue\<close>

text \<open>
  C1: the list of a queue never holds two entries with the same id: not after any calls
  on a new mock queue, not after any calls and renders on a newly mounted live queue
  (neither in the list the next render yields nor in the list of the object in hand), and
  every call keeps the ids of a list unique whose ids are unique.
\<close>

theorem queue_ids_unique:
  "distinct (map id_q (mock_list (fst (mock_run cs h0)) (snd (mock_run cs h0)))) \<and>
   distinct (map id_q (live_list (snd (live_run es)))) \<and>
   distinct (map id_q (list (fst (live_run es)))) \<and>
   (distinct (map id_q (mock_list (mock_queue h1) h)) \<longrightarrow>
      distinct (map id_q (mock_list (mock_queue h1) (dispatch (mock_queue h1) c h)))) \<and>
   (distinct (map id_q (live_list hk)) \<longrightarrow>
      distinct (map id_q (live_list (dispatch (live_queue cell) c hk))))"
proof -
  have "distinct (map id_q (fold apply_call cs ([] :: 'a Queued list)))"
    and "distinct (map id_q (fold apply_call (calls_of es) ([] :: 'b Queued list)))"
    by (simp_all add: fold_apply_call_distinct)
  then show ?thesis
    by (simp add: mock_run_list live_run_list live_held_distinct mock_dispatch_list
        live_dispatch_list apply_call_distinct)
qed

theorem queue_ids_unique_witness:
  "distinct (map id_q (mock_list (mock_queue \<lparr>cells = \<lambda>_. [], next_addr = 0\<rparr>)
      \<lparr>cells = \<lambda>_. [\<lparr>id_q = ''a'', data = 1 :: nat\<rparr>, \<lparr>id_q = ''b'', data = 2\<rparr>],
       next_addr = 1\<rparr>)) \<and>
   distinct (map id_q (mock_list (mock_queue \<lparr>cells = \<lambda>_. [], next_addr = 0\<rparr>)
      (dispatch (mock_queue \<lparr>cells = \<lambda>_. [], next_addr = 0\<rparr>) (Add ''b'' 3)
         \<lparr>cells = \<lambda>_. [\<lparr>id_q = ''a'', data = 1 :: nat\<rparr>, \<lparr>id_q = ''b'', data = 2\<rparr>],
          next_addr = 1\<rparr>))) \<and>
   distinct (map id_q (live_list
      \<lparr>state = [\<lparr>id_q = ''a'', data = 1 :: nat\<rparr>, \<lparr>id_q = ''b'', data = 2\<rparr>],
       pending = []\<rparr>)) \<and>
   distinct (map id_q (live_list (dispatch (live_queue None) (Add ''b'' 3)
      \<lparr>state = [\<lparr>id_q = ''a'', data = 1 :: nat\<rparr>, \<lparr>id_q = ''b'', data = 2\<rparr>],
       pending = []\<rparr>)))"
  using queue_ids_unique [of "[]" "\<lparr>cells = \<lambda>_. [], next_addr = 0\<rparr>" "[]"
      "\<lparr>cells = \<lambda>_. [], next_addr = 0\<rparr>"
      "\<lparr>cells = \<lambda>_. [\<lparr>id_q = ''a'', data = 1 :: nat\<rparr>, \<lparr>id_q = ''b'', data = 2\<rparr>],
        next_addr = 1\<rparr>"
      "Add ''b'' 3"
      "\<lparr>state = [\<lparr>id_q = ''a'', data = 1 :: nat\<rparr>, \<lparr>id_q = ''b'', data = 2\<rparr>],
        pending = []\<rparr>"
      None]
  by (simp add: mock_list_def createMockNotificationQueue_def live_list_eq mock_add_def
      findIndex_def slice_def splice_arr_def push_def useNotificationQueue_def setState_def
      mock_run_def live_run_def)

text \<open>
  C2: in a queue state whose list \<open>l\<close> (unique by id) has an entry with id \<open>i\<close> at
  position \<open>k\<close>, \<^verbatim>\<open>add(i, d)\<close> leaves the list \<open>l\<close> with position \<open>k\<close> replaced by the
  entry \<open>(i, d)\<close>: the same length, every other position unchanged. A second
  \<^verbatim>\<open>add(i, d')\<close> leaves the one entry at position \<open>k\<close> holding \<open>d'\<close>. Both hold on the
  mock queue and on the live queue.
\<close>

theorem add_existing_replaces_in_place:
  assumes "mock_list (mock_queue h0) h = l" and "live_list hk = l"
    and "distinct (map id_q l)" and "k < length l" and "id_q (l ! k) = i"
  shows "mock_list (mock_queue h0) (add (mock_queue h0) i d h) = l[k := \<lparr>id_q = i, data = d\<rparr>] \<and>
         live_list (add (live_queue cell) i d hk) = l[k := \<lparr>id_q = i, data = d\<rparr>] \<and>
         mock_list (mock_queue h0) (add (mock_queue h0) i d' (add (mock_queue h0) i d h))
           = l[k := \<lparr>id_q = i, data = d'\<rparr>] \<and>
         live_list (add (live_queue cell') i d' (add (live_queue cell) i d hk))
           = l[k := \<lparr>id_q = i, data = d'\<rparr>]"
proof -
  have one: "upsert i x l = l[k := \<lparr>id_q = i, data = x\<rparr>]" for x
    using assms(3-5) by (rule upsert_present)
  have two: "upsert i d' (upsert i d l) = l[k := \<lparr>id_q = i, data = d'\<rparr>]"
    unfolding upsert_twice by (rule one)
  from assms(1,2) one two show ?thesis
    by (simp add: mock_add_list live_add_list)
qed

theorem add_existing_replaces_in_place_witness:
  "mock_list (mock_queue \<lparr>cells = \<lambda>_. [], next_addr = 0\<rparr>) (snd (mock_run [Add ''a'' (1 :: nat), Add ''b'' 2] \<lparr>cells = \<lambda>_. [], next_addr = 0\<rparr>)) = [\<lparr>id_q = ''a'', data = 1 :: nat\<rparr>, \<lparr>id_q = ''b'', data = 2\<rparr>] \<and>
   live_list (snd (live_run [Call (Add ''a'' (1 :: nat)), Call (Add ''b'' 2)])) = [\<lparr>id_q = ''a'', data = 1 :: nat\<rparr>, \<lparr>id_q = ''b'', data = 2\<rparr>] \<and>
   distinct (map id_q [\<lparr>id_q = ''a'', data = 1 :: nat\<rparr>, \<lparr>id_q = ''b'', data = 2\<rparr>]) \<and>
   (1 :: nat) < length [\<lparr>id_q = ''a'', data = 1 :: nat\<rparr>, \<lparr>id_q = ''b'', data = 2\<rparr>] \<and>
   id_q ([\<lparr>id_q = ''a'', data = 1 :: nat\<rparr>, \<lparr>id_q = ''b'', data = 2\<rparr>] ! 1) = ''b'' \<and>
   mock_list (mock_queue \<lparr>cells = \<lambda>_. [], next_addr = 0\<rparr>) (add (mock_queue \<lparr>cells = \<lambda>_. [], next_addr = 0\<rparr>) ''b'' 7 (snd (mock_run [Add ''a'' (1 :: nat), Add ''b'' 2] \<lparr>cells = \<lambda>_. [], next_addr = 0\<rparr>))) = [\<lparr>id_q = ''a'', data = 1 :: nat\<rparr>, \<lparr>id_q = ''b'', data = 7\<rparr>] \<and>
   live_list (add (live_queue None) ''b'' 7 (snd (live_run [Call (Add ''a'' (1 :: nat)), Call (Add ''b'' 2)]))) = [\<lparr>id_q = ''a'', data = 1 :: nat\<rparr>, \<lparr>id_q = ''b'', data = 7\<rparr>] \<and>
   mock_list (mock_queue \<lparr>cells = \<lambda>_. [], next_addr = 0\<rparr>) (add (mock_queue \<lparr>cells = \<lambda>_. [], next_addr = 0\<rparr>) ''b'' 9 (add (mock_queue \<lparr>cells = \<lambda>_. [], next_addr = 0\<rparr>) ''b'' 7 (snd (mock_run [Add ''a'' (1 :: nat), Add ''b'' 2] \<lparr>cells = \<lambda>_. [], next_addr = 0\<rparr>)))) = [\<lparr>id_q = ''a'', data = 1 :: nat\<rparr>, \<lparr>id_q = ''b'', data = 9\<rparr>] \<and>
   live_list (add (live_queue None) ''b'' 9 (add (live_queue None) ''b'' 7 (snd (live_run [Call (Add ''a'' (1 :: nat)), Call (Add ''b'' 2)])))) = [\<lparr>id_q = ''a'', data = 1 :: nat\<rparr>, \<lparr>id_q = ''b'', data = 9\<rparr>]"
proof -
  have h1: "mock_list (mock_queue \<lparr>cells = \<lambda>_. [], next_addr = 0\<rparr>) (snd (mock_run [Add ''a'' (1 :: nat), Add ''b'' 2] \<lparr>cells = \<lambda>_. [], next_addr = 0\<rparr>)) = [\<lparr>id_q = ''a'', data = 1 :: nat\<rparr>, \<lparr>id_q = ''b'', data = 2\<rparr>]"
    by (simp add: mock_list_def createMockNotificationQueue_def live_list_eq mock_add_def
      mock_remove_def mock_removeAll_def findIndex_def slice_def splice_arr_def push_def
      useNotificationQueue_def setState_def mock_run_def live_run_def)
  have h2: "live_list (snd (live_run [Call (Add ''a'' (1 :: nat)), Call (Add ''b'' 2)])) = [\<lparr>id_q = ''a'', data = 1 :: nat\<rparr>, \<lparr>id_q = ''b'', data = 2\<rparr>]"
    by (simp add: mock_list_def createMockNotificationQueue_def live_list_eq mock_add_def
      mock_remove_def mock_removeAll_def findIndex_def slice_def splice_arr_def push_def
      useNotificationQueue_def setState_def mock_run_def live_run_def)
  have h3: "distinct (map id_q [\<lparr>id_q = ''a'', data = 1 :: nat\<rparr>, \<lparr>id_q = ''b'', data = 2\<rparr>])"
    by simp
  have h4: "(1 :: nat) < length [\<lparr>id_q = ''a'', data = 1 :: nat\<rparr>, \<lparr>id_q = ''b'', data = 2\<rparr>]"
    by simp
  have h5: "id_q ([\<lparr>id_q = ''a'', data = 1 :: nat\<rparr>, \<lparr>id_q = ''b'', data = 2\<rparr>] ! 1) = ''b''"
    by simp
  from add_existing_replaces_in_place [OF h1 h2 h3 h4 h5, of 7 None 9 None] h1 h2
  show ?thesis
    by simp
qed

text \<open>
  C3: after \<^verbatim>\<open>add\<close> calls with pairwise distinct ids on a new queue, the list holds the
  entries in the order of the calls; a further \<^verbatim>\<open>add\<close> of the id of the \<open>k\<close>-th call
  changes the data at position \<open>k\<close> and nothing else. On the live queue the calls may be
  interleaved with renders in any way.
\<close>

theorem adds_keep_call_order:
  assumes "distinct (map fst ps)" and "calls_of es = map (\<lambda>(i, d). Add i d) ps"
  shows "mock_list (fst (mock_run (map (\<lambda>(i, d). Add i d) ps) h0))
           (snd (mock_run (map (\<lambda>(i, d). Add i d) ps) h0))
           = map (\<lambda>(i, d). \<lparr>id_q = i, data = d\<rparr>) ps \<and>
         live_list (snd (live_run es)) = map (\<lambda>(i, d). \<lparr>id_q = i, data = d\<rparr>) ps \<and>
         (k < length ps \<longrightarrow>
            mock_list (fst (mock_run (map (\<lambda>(i, d). Add i d) ps @ [Add (fst (ps ! k)) d'])  h0))
              (snd (mock_run (map (\<lambda>(i, d). Add i d) ps @ [Add (fst (ps ! k)) d']) h0))
              = map (\<lambda>(i, d). \<lparr>id_q = i, data = d\<rparr>) (ps[k := (fst (ps ! k), d')]) \<and>
            live_list (snd (live_run (es @ [Call (Add (fst (ps ! k)) d')])))
              = map (\<lambda>(i, d). \<lparr>id_q = i, data = d\<rparr>) (ps[k := (fst (ps ! k), d')]))"
proof -
  let ?mk = "\<lambda>(i, d). \<lparr>id_q = i, data = d\<rparr>"
  have adds: "fold apply_call (map (\<lambda>(i, d). Add i d) ps) [] = map ?mk ps"
    using fold_adds [OF assms(1), of "[]"] by simp
  have ids: "map id_q (map ?mk ps) = map fst ps"
    by (induction ps) auto
  have again: "upsert (fst (ps ! k)) d' (map ?mk ps) = map ?mk (ps[k := (fst (ps ! k), d')])"
    if "k < length ps"
  proof -
    have "id_q (map ?mk ps ! k) = fst (ps ! k)"
      using that by (simp add: split_beta)
    moreover have "distinct (map id_q (map ?mk ps))"
      unfolding ids by (rule assms(1))
    moreover have "k < length (map ?mk ps)"
      using that by simp
    ultimately have "upsert (fst (ps ! k)) d' (map ?mk ps)
          = (map ?mk ps)[k := \<lparr>id_q = fst (ps ! k), data = d'\<rparr>]"
      by (intro upsert_present)
    then show ?thesis
      by (simp add: map_update)
  qed
  from adds again assms(2) show ?thesis
    by (simp add: mock_run_list live_run_list calls_of_append)
qed

theorem adds_keep_call_order_witness:
  "distinct (map fst [(''a'', 1 :: nat), (''b'', 2)]) \<and>
   calls_of [Call (Add ''a'' (1 :: nat)), Render, Call (Add ''b'' 2)]
     = map (\<lambda>(i, d). Add i d) [(''a'', 1), (''b'', 2)] \<and>
   mock_list (fst (mock_run [Add ''a'' (1 :: nat), Add ''b'' 2] \<lparr>cells = \<lambda>_. [], next_addr = 0\<rparr>))
     (snd (mock_run [Add ''a'' (1 :: nat), Add ''b'' 2] \<lparr>cells = \<lambda>_. [], next_addr = 0\<rparr>)) = [\<lparr>id_q = ''a'', data = 1 :: nat\<rparr>, \<lparr>id_q = ''b'', data = 2\<rparr>] \<and>
   live_list (snd (live_run [Call (Add ''a'' (1 :: nat)), Render, Call (Add ''b'' 2)]))
     = [\<lparr>id_q = ''a'', data = 1 :: nat\<rparr>, \<lparr>id_q = ''b'', data = 2\<rparr>] \<and>
   (0 :: nat) < length [(''a'', 1 :: nat), (''b'', 2)] \<and>
   mock_list (fst (mock_run [Add ''a'' (1 :: nat), Add ''b'' 2, Add ''a'' 5] \<lparr>cells = \<lambda>_. [], next_addr = 0\<rparr>))
     (snd (mock_run [Add ''a'' (1 :: nat), Add ''b'' 2, Add ''a'' 5] \<lparr>cells = \<lambda>_. [], next_addr = 0\<rparr>))
     = [\<lparr>id_q = ''a'', data = 5\<rparr>, \<lparr>id_q = ''b'', data = 2\<rparr>] \<and>
   live_list (snd (live_run
       [Call (Add ''a'' (1 :: nat)), Render, Call (Add ''b'' 2), Call (Add ''a'' 5)]))
     = [\<lparr>id_q = ''a'', data = 5\<rparr>, \<lparr>id_q = ''b'', data = 2\<rparr>]"
proof -
  have h1: "distinct (map fst [(''a'', 1 :: nat), (''b'', 2)])"
    by simp
  have h2: "calls_of [Call (Add ''a'' (1 :: nat)), Render, Call (Add ''b'' 2)]
            = map (\<lambda>(i, d). Add i d) [(''a'', 1), (''b'', 2)]"
    by simp
  from adds_keep_call_order [OF h1 h2, of "\<lparr>cells = \<lambda>_. [], next_addr = 0\<rparr>" 0 5] h1 h2
  show ?thesis
    by simp
qed

text \<open>
  C4: after any sequence of calls, with renders in between in any way, the list read from
  the live queue at the next render is the list read from a mock queue that received the
  same calls.
\<close>

theorem mock_live_same_list:
  "list (fst (live_run (es @ [Render])))
     = mock_list (fst (mock_run (calls_of es) h0)) (snd (mock_run (calls_of es) h0)) \<and>
   live_list (snd (live_run es))
     = mock_list (fst (mock_run (calls_of es) h0)) (snd (mock_run (calls_of es) h0)) \<and>
   list (fst (live_run (map Call cs @ [Render])))
     = mock_list (fst (mock_run cs h1)) (snd (mock_run cs h1))"
  by (simp add: live_run_render live_run_list mock_run_list calls_of_map_Call)

text \<open>
  C5: in a queue state whose list \<open>l\<close> (unique by id) has an entry with id \<open>i\<close> at
  position \<open>k\<close>, \<^verbatim>\<open>remove(i)\<close> leaves the entries before \<open>k\<close> followed by the entries
  after \<open>k\<close>, on both queues.
\<close>

theorem remove_present_deletes_entry:
  assumes "mock_list (mock_queue h0) h = l" and "live_list hk = l"
    and "distinct (map id_q l)" and "k < length l" and "id_q (l ! k) = i"
  shows "mock_list (mock_queue h0) (remove_q (mock_queue h0) i h) = take k l @ drop (Suc k) l \<and>
         live_list (remove_q (live_queue cell) i hk) = take k l @ drop (Suc k) l"
  using assms(1,2) filter_present [OF assms(3-5)]
  by (simp add: mock_remove_list live_remove_list)

theorem remove_present_deletes_entry_witness:
  "mock_list (mock_queue \<lparr>cells = \<lambda>_. [], next_addr = 0\<rparr>) (snd (mock_run [Add ''a'' (1 :: nat), Add ''b'' 2] \<lparr>cells = \<lambda>_. [], next_addr = 0\<rparr>)) = [\<lparr>id_q = ''a'', data = 1 :: nat\<rparr>, \<lparr>id_q = ''b'', data = 2\<rparr>] \<and>
   live_list (snd (live_run [Call (Add ''a'' (1 :: nat)), Call (Add ''b'' 2)])) = [\<lparr>id_q = ''a'', data = 1 :: nat\<rparr>, \<lparr>id_q = ''b'', data = 2\<rparr>] \<and>
   distinct (map id_q [\<lparr>id_q = ''a'', data = 1 :: nat\<rparr>, \<lparr>id_q = ''b'', data = 2\<rparr>]) \<and>
   (0 :: nat) < length [\<lparr>id_q = ''a'', data = 1 :: nat\<rparr>, \<lparr>id_q = ''b'', data = 2\<rparr>] \<and>
   id_q ([\<lparr>id_q = ''a'', data = 1 :: nat\<rparr>, \<lparr>id_q = ''b'', data = 2\<rparr>] ! 0) = ''a'' \<and>
   mock_list (mock_queue \<lparr>cells = \<lambda>_. [], next_addr = 0\<rparr>) (remove_q (mock_queue \<lparr>cells = \<lambda>_. [], next_addr = 0\<rparr>) ''a'' (snd (mock_run [Add ''a'' (1 :: nat), Add ''b'' 2] \<lparr>cells = \<lambda>_. [], next_addr = 0\<rparr>))) = [\<lparr>id_q = ''b'', data = 2\<rparr>] \<and>
   live_list (remove_q (live_queue None) ''a'' (snd (live_run [Call (Add ''a'' (1 :: nat)), Call (Add ''b'' 2)]))) = [\<lparr>id_q = ''b'', data = 2\<rparr>]"
proof -
  have h1: "mock_list (mock_queue \<lparr>cells = \<lambda>_. [], next_addr = 0\<rparr>) (snd (mock_run [Add ''a'' (1 :: nat), Add ''b'' 2] \<lparr>cells = \<lambda>_. [], next_addr = 0\<rparr>)) = [\<lparr>id_q = ''a'', data = 1 :: nat\<rparr>, \<lparr>id_q = ''b'', data = 2\<rparr>]"
    by (simp add: mock_list_def createMockNotificationQueue_def live_list_eq mock_add_def
      mock_remove_def mock_removeAll_def findIndex_def slice_def splice_arr_def push_def
      useNotificationQueue_def setState_def mock_run_def live_run_def)
  have h2: "live_list (snd (live_run [Call (Add ''a'' (1 :: nat)), Call (Add ''b'' 2)])) = [\<lparr>id_q = ''a'', data = 1 :: nat\<rparr>, \<lparr>id_q = ''b'', data = 2\<rparr>]"
    by (simp add: mock_list_def createMockNotificationQueue_def live_list_eq mock_add_def
      mock_remove_def mock_removeAll_def findIndex_def slice_def splice_arr_def push_def
      useNotificationQueue_def setState_def mock_run_def live_run_def)
  have h3: "distinct (map id_q [\<lparr>id_q = ''a'', data = 1 :: nat\<rparr>, \<lparr>id_q = ''b'', data = 2\<rparr>])"
    by simp
  have h4: "(0 :: nat) < length [\<lparr>id_q = ''a'', data = 1 :: nat\<rparr>, \<lparr>id_q = ''b'', data = 2\<rparr>]"
    by simp
  have h5: "id_q ([\<lparr>id_q = ''a'', data = 1 :: nat\<rparr>, \<lparr>id_q = ''b'', data = 2\<rparr>] ! 0) = ''a''"
    by simp
  from remove_present_deletes_entry [OF h1 h2 h3 h4 h5, of None] h1 h2
  show ?thesis
    by simp
qed

text \<open>
  C6: in a queue state whose list \<open>l\<close> has no entry with id \<open>i\<close>, \<^verbatim>\<open>remove(i)\<close> leaves
  the list \<open>l\<close>, on both queues, and a consumer's call of it returns without an error.
\<close>

theorem remove_absent_unchanged:
  assumes "mock_list (mock_queue h0) h = l" and "live_list hk = l"
    and "i \<notin> set (map id_q l)"
  shows "mock_list (mock_queue h0) (remove_q (mock_queue h0) i h) = l \<and>
         live_list (remove_q (live_queue cell) i hk) = l \<and>
         consumer_call (NotificationQueueProvider (mock_queue h0)) (Remove i) h
           = Inr (remove_q (mock_queue h0) i h) \<and>
         consumer_call (NotificationQueueProvider (live_queue cell)) (Remove i) hk
           = Inr (remove_q (live_queue cell) i hk)"
  using assms(1,2) filter_absent [OF assms(3)]
  by (simp add: mock_remove_list live_remove_list consumer_call_def useNotifications_def
      NotificationQueueProvider_def)

theorem remove_absent_unchanged_witness:
  "mock_list (mock_queue \<lparr>cells = \<lambda>_. [], next_addr = 0\<rparr>) (snd (mock_run [Add ''a'' (1 :: nat), Add ''b'' 2] \<lparr>cells = \<lambda>_. [], next_addr = 0\<rparr>)) = [\<lparr>id_q = ''a'', data = 1 :: nat\<rparr>, \<lparr>id_q = ''b'', data = 2\<rparr>] \<and>
   live_list (snd (live_run [Call (Add ''a'' (1 :: nat)), Call (Add ''b'' 2)])) = [\<lparr>id_q = ''a'', data = 1 :: nat\<rparr>, \<lparr>id_q = ''b'', data = 2\<rparr>] \<and>
   ''c'' \<notin> set (map id_q [\<lparr>id_q = ''a'', data = 1 :: nat\<rparr>, \<lparr>id_q = ''b'', data = 2\<rparr>]) \<and>
   mock_list (mock_queue \<lparr>cells = \<lambda>_. [], next_addr = 0\<rparr>) (remove_q (mock_queue \<lparr>cells = \<lambda>_. [], next_addr = 0\<rparr>) ''c'' (snd (mock_run [Add ''a'' (1 :: nat), Add ''b'' 2] \<lparr>cells = \<lambda>_. [], next_addr = 0\<rparr>))) = [\<lparr>id_q = ''a'', data = 1 :: nat\<rparr>, \<lparr>id_q = ''b'', data = 2\<rparr>] \<and>
   live_list (remove_q (live_queue None) ''c'' (snd (live_run [Call (Add ''a'' (1 :: nat)), Call (Add ''b'' 2)]))) = [\<lparr>id_q = ''a'', data = 1 :: nat\<rparr>, \<lparr>id_q = ''b'', data = 2\<rparr>]"
proof -
  have h1: "mock_list (mock_queue \<lparr>cells = \<lambda>_. [], next_addr = 0\<rparr>) (snd (mock_run [Add ''a'' (1 :: nat), Add ''b'' 2] \<lparr>cells = \<lambda>_. [], next_addr = 0\<rparr>)) = [\<lparr>id_q = ''a'', data = 1 :: nat\<rparr>, \<lparr>id_q = ''b'', data = 2\<rparr>]"
    by (simp add: mock_list_def createMockNotificationQueue_def live_list_eq mock_add_def
      mock_remove_def mock_removeAll_def findIndex_def slice_def splice_arr_def push_def
      useNotificationQueue_def setState_def mock_run_def live_run_def)
  have h2: "live_list (snd (live_run [Call (Add ''a'' (1 :: nat)), Call (Add ''b'' 2)])) = [\<lparr>id_q = ''a'', data = 1 :: nat\<rparr>, \<lparr>id_q = ''b'', data = 2\<rparr>]"
    by (simp add: mock_list_def createMockNotificationQueue_def live_list_eq mock_add_def
      mock_remove_def mock_removeAll_def findIndex_def slice_def splice_arr_def push_def
      useNotificationQueue_def setState_def mock_run_def live_run_def)
  have h3: "''c'' \<notin> set (map id_q [\<lparr>id_q = ''a'', data = 1 :: nat\<rparr>, \<lparr>id_q = ''b'', data = 2\<rparr>])"
    by simp
  from remove_absent_unchanged [OF h1 h2 h3, of None] h1 h2 h3
  show ?thesis
    by simp
qed

text \<open>
  C7: for every queue state, \<^verbatim>\<open>removeAll()\<close> leaves the list empty, on the mock queue
  (whatever the heap holds) and on the live queue (whatever the state cell holds, the list
  being read at the next render).
\<close>

theorem removeAll_empties:
  "mock_list (mock_queue h0) (removeAll_q (mock_queue h0) h) = [] \<and>
   length (mock_list (mock_queue h0) (removeAll_q (mock_queue h0) h)) = 0 \<and>
   live_list (removeAll_q (live_queue cell) hk) = [] \<and>
   length (live_list (removeAll_q (live_queue cell) hk)) = 0"
  by (simp add: mock_removeAll_list live_removeAll_list)

text \<open>
  C8: on a queue whose list is empty, \<^verbatim>\<open>add(i, d)\<close> leaves the list with the one entry
  \<open>(i, d)\<close>, on both queues; so does the first call on a new mock queue and on a newly
  mounted live queue.
\<close>

theorem add_on_empty_queue:
  assumes "mock_list (mock_queue h0) h = []" and "live_list hk = []"
  shows "mock_list (mock_queue h0) (add (mock_queue h0) i d h) = [\<lparr>id_q = i, data = d\<rparr>] \<and>
         live_list (add (live_queue cell) i d hk) = [\<lparr>id_q = i, data = d\<rparr>] \<and>
         mock_list (fst (mock_run [Add i d] h1)) (snd (mock_run [Add i d] h1))
           = [\<lparr>id_q = i, data = d\<rparr>] \<and>
         list (fst (live_run [Call (Add i d), Render])) = [\<lparr>id_q = i, data = d\<rparr>]"
proof -
  have "list (fst (live_run ([Call (Add i d)] @ [Render]))) = [\<lparr>id_q = i, data = d\<rparr>]"
    by (simp only: live_run_render live_run_list) (simp add: upsert_absent)
  with assms show ?thesis
    by (simp add: mock_add_list live_add_list mock_run_list upsert_absent)
qed

theorem add_on_empty_queue_witness:
  "mock_list (mock_queue \<lparr>cells = \<lambda>_. [], next_addr = 0\<rparr>) (snd (createMockNotificationQueue \<lparr>cells = \<lambda>_. [], next_addr = 0\<rparr>)) = ([] :: nat Queued list) \<and>
   live_list (snd (useNotificationQueue None)) = ([] :: nat Queued list) \<and>
   mock_list (mock_queue \<lparr>cells = \<lambda>_. [], next_addr = 0\<rparr>) (add (mock_queue \<lparr>cells = \<lambda>_. [], next_addr = 0\<rparr>) ''a'' 1 (snd (createMockNotificationQueue \<lparr>cells = \<lambda>_. [], next_addr = 0\<rparr>))) = [\<lparr>id_q = ''a'', data = 1 :: nat\<rparr>] \<and>
   live_list (add (live_queue None) ''a'' 1 (snd (useNotificationQueue None))) = [\<lparr>id_q = ''a'', data = 1 :: nat\<rparr>]"
proof -
  have h1: "mock_list (mock_queue \<lparr>cells = \<lambda>_. [], next_addr = 0\<rparr>) (snd (createMockNotificationQueue \<lparr>cells = \<lambda>_. [], next_addr = 0\<rparr>)) = ([] :: nat Queued list)"
    by (simp add: mock_list_def createMockNotificationQueue_def live_list_eq mock_add_def
      mock_remove_def mock_removeAll_def findIndex_def slice_def splice_arr_def push_def
      useNotificationQueue_def setState_def mock_run_def live_run_def)
  have h2: "live_list (snd (useNotificationQueue None)) = ([] :: nat Queued list)"
    by (simp add: mock_list_def createMockNotificationQueue_def live_list_eq mock_add_def
      mock_remove_def mock_removeAll_def findIndex_def slice_def splice_arr_def push_def
      useNotificationQueue_def setState_def mock_run_def live_run_def)
  from add_on_empty_queue [OF h1 h2, of "''a''" 1 None] h1 h2
  show ?thesis
    by simp
qed

text \<open>
  C9: \<^verbatim>\<open>useNotifications\<close> raises the error \<^verbatim>\<open>Missing <NotificationQueueProvider>\<close> when
  the context holds no queue, and then only; inside a provider it returns the queue of the
  provider. No call of \<^verbatim>\<open>add\<close>, \<^verbatim>\<open>remove\<close> or \<^verbatim>\<open>removeAll\<close> raises an error: on the
  methods on run-time values, where reading \<^verbatim>\<open>n.id\<close> can raise, a call on a mock queue
  in any heap whose arrays hold entries returns the heap that the method on entries
  leaves, any sequence of calls on a new mock queue returns, and any sequence of calls
  and renders of a newly mounted live queue returns, with the list of the queue on
  entries.
\<close>

theorem missing_provider_only_failure:
  "useNotifications None = Inl (Error ''Missing <NotificationQueueProvider>'') \<and>
   useNotifications (NotificationQueueProvider q) = Inr q \<and>
   useNotifications (fst (MockNotificationQueueProvider None h)) = Inr (mock_queue h) \<and>
   useNotifications (fst (MockNotificationQueueProvider (Some mq) h)) = Inr mq \<and>
   (useNotifications context = Inl e)
     = (context = None \<and> e = Error ''Missing <NotificationQueueProvider>'') \<and>
   dispatch_rt (mock_queue_rt (heap_rt_of h0)) c (heap_rt_of h1)
     = Inr (heap_rt_of (dispatch (mock_queue h0) c h1)) \<and>
   mock_run_rt cs (heap_rt_of h0)
     = Inr (mock_queue_rt (heap_rt_of h0), heap_rt_of (snd (mock_run cs h0))) \<and>
   (\<exists>q hk. live_run_rt es = Inr (q, hk) \<and>
            list_rt q = map Object (list (fst (live_run es))))"
proof -
  have hook: "(useNotifications context = Inl e)
              = (context = None \<and> e = Error ''Missing <NotificationQueueProvider>'')"
    by (auto simp add: useNotifications_def split: option.splits)
  have providers:
    "useNotifications None = Inl (Error ''Missing <NotificationQueueProvider>'')"
    "useNotifications (NotificationQueueProvider q) = Inr q"
    "useNotifications (fst (MockNotificationQueueProvider None h)) = Inr (mock_queue h)"
    "useNotifications (fst (MockNotificationQueueProvider (Some mq) h)) = Inr mq"
    by (simp_all add: useNotifications_def NotificationQueueProvider_def
        MockNotificationQueueProvider_def split_beta)
  from hook providers mock_dispatch_rt_objects [of h0 c h1] mock_run_rt_objects [of cs h0]
    live_run_rt_objects [of es]
  show ?thesis
    by blast
qed

text \<open>
  C10: in a queue state whose list \<open>l\<close> has no entry with id \<open>i\<close>, \<^verbatim>\<open>add(i, d)\<close> followed
  by \<^verbatim>\<open>remove(i)\<close> leaves the list \<open>l\<close>, on both queues.
\<close>

theorem add_then_remove_restores:
  assumes "mock_list (mock_queue h0) h = l" and "live_list hk = l"
    and "i \<notin> set (map id_q l)"
  shows "mock_list (mock_queue h0) (remove_q (mock_queue h0) i (add (mock_queue h0) i d h)) = l \<and>
         live_list (remove_q (live_queue cell') i (add (live_queue cell) i d hk)) = l"
  using assms(1,2) filter_absent [OF assms(3)]
  by (simp add: mock_remove_list live_remove_list mock_add_list live_add_list
      upsert_absent [OF assms(3)])

theorem add_then_remove_restores_witness:
  "mock_list (mock_queue \<lparr>cells = \<lambda>_. [], next_addr = 0\<rparr>) (snd (mock_run [Add ''a'' (1 :: nat), Add ''b'' 2] \<lparr>cells = \<lambda>_. [], next_addr = 0\<rparr>)) = [\<lparr>id_q = ''a'', data = 1 :: nat\<rparr>, \<lparr>id_q = ''b'', data = 2\<rparr>] \<and>
   live_list (snd (live_run [Call (Add ''a'' (1 :: nat)), Call (Add ''b'' 2)])) = [\<lparr>id_q = ''a'', data = 1 :: nat\<rparr>, \<lparr>id_q = ''b'', data = 2\<rparr>] \<and>
   ''c'' \<notin> set (map id_q [\<lparr>id_q = ''a'', data = 1 :: nat\<rparr>, \<lparr>id_q = ''b'', data = 2\<rparr>]) \<and>
   mock_list (mock_queue \<lparr>cells = \<lambda>_. [], next_addr = 0\<rparr>) (remove_q (mock_queue \<lparr>cells = \<lambda>_. [], next_addr = 0\<rparr>) ''c'' (add (mock_queue \<lparr>cells = \<lambda>_. [], next_addr = 0\<rparr>) ''c'' 3 (snd (mock_run [Add ''a'' (1 :: nat), Add ''b'' 2] \<lparr>cells = \<lambda>_. [], next_addr = 0\<rparr>)))) = [\<lparr>id_q = ''a'', data = 1 :: nat\<rparr>, \<lparr>id_q = ''b'', data = 2\<rparr>] \<and>
   live_list (remove_q (live_queue None) ''c'' (add (live_queue None) ''c'' 3 (snd (live_run [Call (Add ''a'' (1 :: nat)), Call (Add ''b'' 2)])))) = [\<lparr>id_q = ''a'', data = 1 :: nat\<rparr>, \<lparr>id_q = ''b'', data = 2\<rparr>]"
proof -
  have h1: "mock_list (mock_queue \<lparr>cells = \<lambda>_. [], next_addr = 0\<rparr>) (snd (mock_run [Add ''a'' (1 :: nat), Add ''b'' 2] \<lparr>cells = \<lambda>_. [], next_addr = 0\<rparr>)) = [\<lparr>id_q = ''a'', data = 1 :: nat\<rparr>, \<lparr>id_q = ''b'', data = 2\<rparr>]"
    by (simp add: mock_list_def createMockNotificationQueue_def live_list_eq mock_add_def
      mock_remove_def mock_removeAll_def findIndex_def slice_def splice_arr_def push_def
      useNotificationQueue_def setState_def mock_run_def live_run_def)
  have h2: "live_list (snd (live_run [Call (Add ''a'' (1 :: nat)), Call (Add ''b'' 2)])) = [\<lparr>id_q = ''a'', data = 1 :: nat\<rparr>, \<lparr>id_q = ''b'', data = 2\<rparr>]"
    by (simp add: mock_list_def createMockNotificationQueue_def live_list_eq mock_add_def
      mock_remove_def mock_removeAll_def findIndex_def slice_def splice_arr_def push_def
      useNotificationQueue_def setState_def mock_run_def live_run_def)
  have h3: "''c'' \<notin> set (map id_q [\<lparr>id_q = ''a'', data = 1 :: nat\<rparr>, \<lparr>id_q = ''b'', data = 2\<rparr>])"
    by simp
  from add_then_remove_restores [OF h1 h2 h3, of 3 None None] h1 h2 h3
  show ?thesis
    by simp
qed

end
